theory Spec2Isabelle
  imports Main "HOL-Library.Word"
begin

section \<open>The voice session controller of \<open>src/front/script.js\<close>\<close>

text \<open>
  The script is one \<open>DOMContentLoaded\<close> callback.  It owns three closure variables
  (\<open>mediaRecorder\<close>, \<open>audioChunks\<close>, \<open>isListening\<close>), registers one click handler on the
  toggle button and reacts to what the browser delivers afterwards: the outcome of
  \<open>getUserMedia\<close>, the recorder's \<open>dataavailable\<close> and \<open>stop\<close> events, and the outcome of the
  \<open>fetch\<close> to the transcription endpoint.  Each handler is a function on the page state;
  every \<open>await\<close> splits its handler in the part before and the part that resumes.
\<close>

subsection \<open>JavaScript values as the script observes them\<close>

text \<open>
  The values \<open>response.json()\<close> resolves to.  A number is kept as its canonical rendering
  (the result of the language's number-to-string conversion): the script only ever
  tests a number for truthiness and splices it into a string, and both are functions
  of that rendering (\<open>0\<close> and \<open>-0\<close> render as \<open>0\<close>).  An object is the list of its members
  in source order.
\<close>

datatype json =
    Null
  | Bool bool
  | Num string
  | Str string
  | Arr "json list"
  | Obj "(string \<times> json) list"

text \<open>What a property read yields: a value, or \<open>undefined\<close> (\<open>None\<close>).\<close>

type_synonym jsval = "json option"

text \<open>JavaScript truthiness (\<open>if (v)\<close>, \<open>v || w\<close>).\<close>

fun truthy :: "jsval \<Rightarrow> bool" where
  "truthy None = False"
| "truthy (Some Null) = False"
| "truthy (Some (Bool b)) = b"
| "truthy (Some (Num r)) = (r \<noteq> ''0'' \<and> r \<noteq> ''NaN'')"
| "truthy (Some (Str s)) = (s \<noteq> [])"
| "truthy (Some (Arr xs)) = True"
| "truthy (Some (Obj kvs)) = True"

text \<open>
  String conversion, as a template literal and the utterance constructor apply it;
  \<open>None\<close> when it throws a \<open>TypeError\<close>.  A parsed object that has a member
  \<open>toString\<close> of its own cannot be converted: the member hides the inherited method
  and is not callable, and the inherited \<open>valueOf\<close> does not yield a primitive.  Any other
  object renders as \<open>[object Object]\<close>.  An array joins its elements with commas, a
  \<open>null\<close> element rendering empty, and cannot be converted when one of its elements
  cannot.
\<close>

fun jsonStr :: "json \<Rightarrow> string option" and joinElems :: "json list \<Rightarrow> string option" where
  "jsonStr Null = Some ''null''"
| "jsonStr (Bool b) = Some (if b then ''true'' else ''false'')"
| "jsonStr (Num r) = Some r"
| "jsonStr (Str s) = Some s"
| "jsonStr (Arr xs) = joinElems xs"
| "jsonStr (Obj kvs) =
     (if ''toString'' \<in> set (map fst kvs) then None else Some ''[object Object]'')"
| "joinElems [] = Some []"
| "joinElems [x] = (if x = Null then Some [] else jsonStr x)"
| "joinElems (x # y # ys) =
     (case (if x = Null then Some [] else jsonStr x) of
        None \<Rightarrow> None
      | Some a \<Rightarrow>
          (case joinElems (y # ys) of
             None \<Rightarrow> None
           | Some b \<Rightarrow> Some (a @ '','' @ b)))"

fun toStr :: "jsval \<Rightarrow> string option" where
  "toStr None = Some ''undefined''"
| "toStr (Some v) = jsonStr v"

text \<open>
  The message texts of the \<open>TypeError\<close>s the script can run into; they are the engine's:
  for reading \<open>floor\<close> of \<open>null\<close>, for a value the template literal of \<open>selectFloor\<close>
  cannot convert, and for a value the utterance constructor cannot convert.
\<close>

record engine =
  nullReadText :: string
  templateText :: "jsval \<Rightarrow> string"
  utteranceText :: "jsval \<Rightarrow> string"

text \<open>
  The property read \<open>v.k\<close> for a name \<open>k\<close> that no prototype defines (\<open>floor\<close> and
  \<open>message\<close> are such names).  Reading a property of \<open>null\<close> throws a \<open>TypeError\<close>
  (\<open>Inl\<close>, with the engine's message text); a parsed object keeps the last of several
  members of one name; every other value has no such property.
\<close>

fun getProp :: "engine \<Rightarrow> json \<Rightarrow> string \<Rightarrow> string + jsval" where
  "getProp eng Null k = Inl (nullReadText eng)"
| "getProp eng (Obj kvs) k = Inr (map_of (rev kvs) k)"
| "getProp eng v k = Inr None"

subsection \<open>The page state\<close>

text \<open>A \<open>Blob\<close>: its media type and its bytes.\<close>

record blob =
  blobType :: string
  blobBytes :: "8 word list"

text \<open>One entry of a \<open>FormData\<close> body: field name, file name, and the blob.\<close>

record form_entry =
  fieldName :: string
  fileName :: string
  fileBlob :: blob

text \<open>One call of \<open>fetch\<close>.\<close>

record request =
  url :: string
  httpMethod :: string
  formData :: "form_entry list"

text \<open>
  A \<open>MediaRecorder\<close> object: \<open>Recording\<close> after \<open>start()\<close>, \<open>Stopping\<close> once \<open>stop()\<close> was
  called and its last \<open>dataavailable\<close> and its \<open>stop\<close> event are still to be delivered,
  \<open>Inactive\<close> otherwise.
\<close>

datatype rec_state = Recording | Stopping | Inactive

text \<open>
  The closure variables, the two DOM elements, the effects the script has on its
  collaborators (in call order), and what the browser holds for it: the recorder
  objects created so far (a recorder is named by its index), and the numbers of
  unsettled \<open>getUserMedia\<close> and \<open>fetch\<close> promises.
\<close>

record page =
  mediaRecorder :: "nat option"
  audioChunks :: "8 word list list"
  isListening :: bool
  voiceButtonText :: string
  voiceButtonPressed :: "string option"
  selectedFloorText :: string
  selectedFloorLabel :: "string option"
  spoken :: "string list"
  consoleLog :: "string list"
  requests :: "request list"
  recorders :: "rec_state list"
  acquiring :: nat
  inflight :: nat

subsection \<open>What the browser delivers\<close>

text \<open>
  How the \<open>try\<close> block of the click handler's start branch ends: \<open>getUserMedia\<close> rejects,
  the \<open>MediaRecorder\<close> constructor throws, \<open>start()\<close> throws (each with the error's
  \<open>message\<close>), or the block runs to its end.
\<close>

datatype acquire_outcome =
    GumRejected string
  | CtorThrew string
  | StartThrew string
  | Started

text \<open>
  How the two awaits of \<open>sendAudioToAPI\<close> end: \<open>fetch\<close> rejects, or it resolves to a
  response with a status code whose \<open>json()\<close> rejects or resolves to a value.
\<close>

datatype json_outcome = JsonRejected string | JsonResolved json

datatype fetch_outcome = FetchRejected string | Responded nat json_outcome

datatype event =
    Click
  | Acquired acquire_outcome
  | DataAvailable nat "8 word list"
  | RecorderStop nat
  | TranscribeSettled fetch_outcome

subsection \<open>The handlers\<close>

text \<open>\<open>speak\<close>: cancel whatever is being spoken, then speak the text.\<close>

definition speak :: "string \<Rightarrow> page \<Rightarrow> page" where
  "speak txt st = st\<lparr>spoken := spoken st @ [txt]\<rparr>"

text \<open>
  \<open>speak\<close> called with a value that need not be a string: the utterance constructor
  converts it first, and nothing has happened when that throws (\<open>Inl\<close>, with the
  error's message).
\<close>

definition speakValue :: "engine \<Rightarrow> jsval \<Rightarrow> page \<Rightarrow> string + page" where
  "speakValue eng v st =
     (case toStr v of
        None \<Rightarrow> Inl (utteranceText eng v)
      | Some txt \<Rightarrow> Inr (speak txt st))"

text \<open>
  \<open>selectFloor\<close>.  Its first statement evaluates the template literal before it assigns,
  so nothing has happened when the conversion of \<open>floor\<close> throws.
\<close>

definition selectFloor :: "engine \<Rightarrow> jsval \<Rightarrow> page \<Rightarrow> string + page" where
  "selectFloor eng floor st =
     (case toStr floor of
        None \<Rightarrow> Inl (templateText eng floor)
      | Some f \<Rightarrow>
          Inr ((speak (''Selected floor '' @ f)
                 (st\<lparr>selectedFloorText := ''Selected: Floor '' @ f,
                     selectedFloorLabel := Some (''Selected floor: '' @ f)\<rparr>))
               \<lparr>consoleLog := consoleLog st @ [''Simulated Bluetooth command: FLOOR:'' @ f]\<rparr>))"

text \<open>\<open>sendAudioToAPI\<close> up to its first \<open>await\<close>: the form is built and the request leaves.\<close>

definition sendAudioToAPI :: "blob \<Rightarrow> page \<Rightarrow> page" where
  "sendAudioToAPI audioBlob st =
     st\<lparr>requests := requests st @
           [\<lparr>url = ''http://127.0.0.1:8000/transcribe'', httpMethod = ''POST'',
             formData = [\<lparr>fieldName = ''file'', fileName = ''audio.webm'',
                          fileBlob = audioBlob\<rparr>]\<rparr>],
        inflight := Suc (inflight st)\<rparr>"

text \<open>
  The rest of the \<open>try\<close> block of \<open>sendAudioToAPI\<close>, from the settled \<open>fetch\<close> on:
  \<open>Inl m\<close> when an error with message \<open>m\<close> is thrown (nothing was changed before any
  point that can throw), \<open>Inr\<close> the page the block leaves otherwise.
\<close>

fun sendAudioToAPI_try :: "engine \<Rightarrow> fetch_outcome \<Rightarrow> page \<Rightarrow> string + page" where
  "sendAudioToAPI_try eng (FetchRejected m) st = Inl m"
| "sendAudioToAPI_try eng (Responded code (JsonRejected m)) st = Inl m"
| "sendAudioToAPI_try eng (Responded code (JsonResolved result)) st =
     (case getProp eng result ''floor'' of
        Inl m \<Rightarrow> Inl m
      | Inr floor \<Rightarrow>
          if truthy floor then selectFloor eng floor st
          else (case getProp eng result ''message'' of
                  Inl m \<Rightarrow> Inl m
                | Inr msg \<Rightarrow>
                    if truthy msg then speakValue eng msg st
                    else Inr (speak ''No valid floor number recognized.'' st)))"

text \<open>\<open>sendAudioToAPI\<close> after its awaits: the \<open>try\<close> block, and the \<open>catch\<close> clause.\<close>

definition sendAudioToAPI_resume :: "engine \<Rightarrow> fetch_outcome \<Rightarrow> page \<Rightarrow> page" where
  "sendAudioToAPI_resume eng out st =
     (case sendAudioToAPI_try eng out st of
        Inl m \<Rightarrow> speak (''Error processing voice input: '' @ m) st
      | Inr st' \<Rightarrow> st')"

text \<open>
  \<open>recorder.stop()\<close>: a recording recorder starts to flush and close; on an inactive one
  the call does nothing.
\<close>

definition recorder_stop :: "nat \<Rightarrow> page \<Rightarrow> page" where
  "recorder_stop r st =
     (if r < length (recorders st) \<and> recorders st ! r = Recording
      then st\<lparr>recorders := (recorders st)[r := Stopping]\<rparr> else st)"

text \<open>
  The click handler up to its \<open>await\<close>.  Listening: stop the recorder, flip the flag and
  the button, announce.  (With \<open>mediaRecorder\<close> still \<open>null\<close> the call of \<open>stop\<close> throws
  and the handler ends there.)  Not listening: \<open>getUserMedia\<close> is called.
\<close>

definition voiceButton_click :: "page \<Rightarrow> page" where
  "voiceButton_click st =
     (if isListening st then
        (case mediaRecorder st of
           None \<Rightarrow> st
         | Some r \<Rightarrow>
             speak ''Voice input stopped.''
               ((recorder_stop r st)\<lparr>isListening := False,
                   voiceButtonText := ''Start Voice Input'',
                   voiceButtonPressed := Some ''false''\<rparr>))
      else st\<lparr>acquiring := Suc (acquiring st)\<rparr>)"

text \<open>
  The start branch from the settled \<open>getUserMedia\<close> on.  The recorder is assigned and the
  buffer is cleared before \<open>start()\<close> is called, so both have happened when \<open>start()\<close>
  throws.
\<close>

fun voiceButton_click_resume :: "acquire_outcome \<Rightarrow> page \<Rightarrow> page" where
  "voiceButton_click_resume (GumRejected m) st =
     speak (''Error accessing microphone: '' @ m) st"
| "voiceButton_click_resume (CtorThrew m) st =
     speak (''Error accessing microphone: '' @ m) st"
| "voiceButton_click_resume (StartThrew m) st =
     speak (''Error accessing microphone: '' @ m)
       (st\<lparr>mediaRecorder := Some (length (recorders st)),
           recorders := recorders st @ [Inactive],
           audioChunks := []\<rparr>)"
| "voiceButton_click_resume Started st =
     speak ''Please say the floor number.''
       (st\<lparr>mediaRecorder := Some (length (recorders st)),
           recorders := recorders st @ [Recording],
           audioChunks := [],
           isListening := True,
           voiceButtonText := ''Stop Listening'',
           voiceButtonPressed := Some ''true''\<rparr>)"

definition ondataavailable :: "8 word list \<Rightarrow> page \<Rightarrow> page" where
  "ondataavailable d st = st\<lparr>audioChunks := audioChunks st @ [d]\<rparr>"

definition onstop :: "page \<Rightarrow> page" where
  "onstop st =
     sendAudioToAPI \<lparr>blobType = ''audio/webm'', blobBytes = concat (audioChunks st)\<rparr> st"

text \<open>
  The callback itself: the closure variables are initialised and the welcome is spoken.
  The arguments are what the document holds for the two elements at that time.
\<close>

definition domContentLoaded :: "string \<Rightarrow> string option \<Rightarrow> string \<Rightarrow> string option \<Rightarrow> page" where
  "domContentLoaded btn pressed shown label =
     speak ''Welcome to the accessible elevator app. Activate the button to start voice input.''
       \<lparr>mediaRecorder = None, audioChunks = [], isListening = False,
        voiceButtonText = btn, voiceButtonPressed = pressed,
        selectedFloorText = shown, selectedFloorLabel = label,
        spoken = [], consoleLog = [], requests = [],
        recorders = [], acquiring = 0, inflight = 0\<rparr>"

subsection \<open>Events and runs\<close>

text \<open>
  One event: the browser's own bookkeeping, then the handler.  Both recorder handlers
  are closures over the shared variables, so they do the same for every recorder.
\<close>

fun step :: "engine \<Rightarrow> event \<Rightarrow> page \<Rightarrow> page" where
  "step eng Click st = voiceButton_click st"
| "step eng (Acquired out) st =
     voiceButton_click_resume out (st\<lparr>acquiring := acquiring st - 1\<rparr>)"
| "step eng (DataAvailable r d) st = ondataavailable d st"
| "step eng (RecorderStop r) st =
     onstop (st\<lparr>recorders := (recorders st)[r := Inactive]\<rparr>)"
| "step eng (TranscribeSettled out) st =
     sendAudioToAPI_resume eng out (st\<lparr>inflight := inflight st - 1\<rparr>)"

fun run :: "engine \<Rightarrow> event list \<Rightarrow> page \<Rightarrow> page" where
  "run eng [] st = st"
| "run eng (e # es) st = run eng es (step eng e st)"

subsection \<open>Which events the browser can deliver\<close>

text \<open>
  A click can come at any time.  A \<open>getUserMedia\<close> or \<open>fetch\<close> outcome needs its promise
  unsettled; a recorder delivers data while it records or flushes, and its \<open>stop\<close> event
  once \<open>stop()\<close> was called on it.
\<close>

fun enabled :: "event \<Rightarrow> page \<Rightarrow> bool" where
  "enabled Click st = True"
| "enabled (Acquired out) st = (0 < acquiring st)"
| "enabled (DataAvailable r d) st = (r < length (recorders st) \<and> recorders st ! r \<noteq> Inactive)"
| "enabled (RecorderStop r) st = (r < length (recorders st) \<and> recorders st ! r = Stopping)"
| "enabled (TranscribeSettled out) st = (0 < inflight st)"

text \<open>A run the browser can deliver, event by event.\<close>

fun feasible :: "engine \<Rightarrow> event list \<Rightarrow> page \<Rightarrow> bool" where
  "feasible eng [] st = True"
| "feasible eng (e # es) st = (enabled e st \<and> feasible eng es (step eng e st))"

subsection \<open>The phases of the specification, read off the page\<close>

text \<open>
  Listening: the flag is set.  Finalizing: a recorder was told to stop and its \<open>stop\<close>
  event is outstanding.  Transcribing: a request is in flight.  Idle: none of these.
  The response is interpreted and announced inside the handler of the settled request,
  so no page between two events is in the phase Announcing.
\<close>

datatype phase = Idle | Listening | Finalizing | Transcribing | Announcing

definition phases :: "page \<Rightarrow> phase list" where
  "phases st =
     (let active = (if isListening st then [Listening] else []) @
                   (if Stopping \<in> set (recorders st) then [Finalizing] else []) @
                   (if 0 < inflight st then [Transcribing] else [])
      in if active = [] then [Idle] else active)"

text \<open>The phases after each event of a run.\<close>

fun phase_trace :: "engine \<Rightarrow> event list \<Rightarrow> page \<Rightarrow> phase list list" where
  "phase_trace eng [] st = []"
| "phase_trace eng (e # es) st = phases (step eng e st) # phase_trace eng es (step eng e st)"

text \<open>
  A run in which a start is only clicked when nothing of an earlier session is
  outstanding: no acquisition pending, no recorder flushing, no request in flight.
\<close>

definition settled :: "page \<Rightarrow> bool" where
  "settled st = (acquiring st = 0 \<and> Stopping \<notin> set (recorders st) \<and> inflight st = 0)"

fun orderly :: "engine \<Rightarrow> event list \<Rightarrow> page \<Rightarrow> bool" where
  "orderly eng [] st = True"
| "orderly eng (e # es) st =
     (enabled e st \<and> (if e = Click \<and> \<not> isListening st then settled st else True) \<and>
      orderly eng es (step eng e st))"

subsection \<open>Sessions\<close>

text \<open>
  The events of one session on recorder \<open>r\<close>, from the start click to the settled
  request: the fragments \<open>early\<close> arrive while listening, the fragments \<open>late\<close> after
  the stop click, before the recorder's \<open>stop\<close> event.
\<close>

definition session_events ::
  "nat \<Rightarrow> 8 word list list \<Rightarrow> 8 word list list \<Rightarrow> fetch_outcome \<Rightarrow> event list" where
  "session_events r early late out =
     [Click, Acquired Started] @ map (DataAvailable r) early @ [Click] @
     map (DataAvailable r) late @ [RecorderStop r, TranscribeSettled out]"

text \<open>The audio bytes a request carries.\<close>

definition payload :: "request \<Rightarrow> 8 word list" where
  "payload q = concat (map (\<lambda>e. blobBytes (fileBlob e)) (formData q))"

text \<open>The fragments recorder \<open>r\<close> delivers in a list of events, in arrival order.\<close>

fun fragments :: "nat \<Rightarrow> event list \<Rightarrow> 8 word list list" where
  "fragments r [] = []"
| "fragments r (DataAvailable r' d # es) = (if r' = r then d # fragments r es else fragments r es)"
| "fragments r (e # es) = fragments r es"

text \<open>
  An event that leaves the capture of recorder \<open>r\<close> alone: no start of another capture
  (which clears the buffer), no fragment and no \<open>stop\<close> event of another recorder, and
  not the \<open>stop\<close> event of \<open>r\<close> itself.
\<close>

fun undisturbed :: "nat \<Rightarrow> event \<Rightarrow> bool" where
  "undisturbed r (Acquired Started) = False"
| "undisturbed r (Acquired (StartThrew m)) = False"
| "undisturbed r (DataAvailable r' d) = (r' = r)"
| "undisturbed r (RecorderStop r') = False"
| "undisturbed r e = True"

text \<open>An event on which the script recognises a floor: a response whose \<open>floor\<close> is truthy.\<close>

fun floorRecognised :: "engine \<Rightarrow> event \<Rightarrow> bool" where
  "floorRecognised eng (TranscribeSettled (Responded code (JsonResolved result))) =
     (case getProp eng result ''floor'' of Inl m \<Rightarrow> False | Inr floor \<Rightarrow> truthy floor)"
| "floorRecognised eng e = False"

subsection \<open>A page to run examples on\<close>

text \<open>
  The page as the callback leaves it, for a document whose button reads
  \<open>Start Voice Input\<close> and whose floor region is still empty.
\<close>

definition examplePage :: page where
  "examplePage = domContentLoaded ''Start Voice Input'' (Some ''false'') [] None"

text \<open>An engine, by its three message texts.\<close>

definition exampleEngine :: engine where
  "exampleEngine =
     \<lparr>nullReadText = ''result is null'',
      templateText = (\<lambda>v. ''cannot convert floor to a primitive''),
      utteranceText = (\<lambda>v. ''cannot convert the text to a primitive'')\<rparr>"

subsection \<open>Auxiliary notions of the proofs\<close>

text \<open>
  The page a session leaves when its request has left, as an update of the page \<open>st\<close>
  the session started from (apart from the count of requests in flight): \<open>ds\<close> are the
  fragments that arrived, \<open>r\<close> is the recorder whose \<open>stop\<close> event was delivered.
\<close>

definition captured :: "nat \<Rightarrow> 8 word list list \<Rightarrow> page \<Rightarrow> page" where
  "captured r ds st =
     st\<lparr>mediaRecorder := Some (length (recorders st)),
        recorders := (recorders st @ [Stopping])[r := Inactive],
        audioChunks := ds,
        isListening := False,
        voiceButtonText := ''Start Voice Input'',
        voiceButtonPressed := Some ''false'',
        spoken := spoken st @ [''Please say the floor number.'', ''Voice input stopped.''],
        requests := requests st @
           [\<lparr>url = ''http://127.0.0.1:8000/transcribe'', httpMethod = ''POST'',
             formData = [\<lparr>fieldName = ''file'', fileName = ''audio.webm'',
                          fileBlob = \<lparr>blobType = ''audio/webm'', blobBytes = concat ds\<rparr>\<rparr>]\<rparr>]\<rparr>"

text \<open>
  The invariant of orderly runs: a recorder records exactly while the flag is set, and
  then it is the one \<open>mediaRecorder\<close> refers to; and at most one thing is going on:
  listening, a recorder flushing, a request in flight, or an acquisition pending.
\<close>

definition tidy :: "page \<Rightarrow> bool" where
  "tidy st =
     (count_list (recorders st) Recording = (if isListening st then 1 else 0) \<and>
      (if isListening st
       then (case mediaRecorder st of None \<Rightarrow> False
             | Some r \<Rightarrow> r < length (recorders st) \<and> recorders st ! r = Recording)
       else True) \<and>
      (if isListening st then 1 else 0) + count_list (recorders st) Stopping +
        inflight st + acquiring st \<le> 1)"

section \<open>Properties\<close>

lemma run_append: "run eng (es @ fs) st = run eng fs (run eng es st)"
  by (induction es arbitrary: st) simp_all

subsection \<open>Runs and sessions\<close>

lemma run_fragments:
  "run eng (map (DataAvailable r) ds) st = st\<lparr>audioChunks := audioChunks st @ ds\<rparr>"
  by (induction ds arbitrary: st) (simp_all add: ondataavailable_def)

lemma run_capture:
  assumes "\<not> isListening st"
  shows "run eng ([Click, Acquired Started] @ map (DataAvailable r) early @ [Click] @
           map (DataAvailable r) late @ [RecorderStop r]) st =
         (captured r (early @ late) st)\<lparr>inflight := Suc (inflight st)\<rparr>"
  using assms
  by (cases st) (simp add: run_append run_fragments voiceButton_click_def speak_def
      recorder_stop_def onstop_def sendAudioToAPI_def captured_def nth_append)

lemma run_session:
  assumes "\<not> isListening st"
  shows "run eng (session_events r early late out) st =
         sendAudioToAPI_resume eng out (captured r (early @ late) st)"
proof -
  have "session_events r early late out =
      ([Click, Acquired Started] @ map (DataAvailable r) early @ [Click] @
           map (DataAvailable r) late @ [RecorderStop r]) @ [TranscribeSettled out]"
    by (simp add: session_events_def)
  then have 1: "run eng (session_events r early late out) st =
      step eng (TranscribeSettled out) ((captured r (early @ late) st)\<lparr>inflight := Suc (inflight st)\<rparr>)"
    using run_capture [OF assms] by (simp only: run_append run.simps)
  have 2: "((captured r (early @ late) st)\<lparr>inflight := Suc (inflight st)\<rparr>)\<lparr>inflight := Suc (inflight st) - 1\<rparr>
      = captured r (early @ late) st"
    by (cases st) (simp add: captured_def)
  have "inflight ((captured r (early @ late) st)\<lparr>inflight := Suc (inflight st)\<rparr>) = Suc (inflight st)"
    by simp
  with 1 2 show ?thesis by (simp only: step.simps)
qed

subsection \<open>What the response handler leaves alone\<close>

lemma resume_isListening [simp]: "isListening (sendAudioToAPI_resume eng out st) = isListening st"
  by (cases "(eng, out, st)" rule: sendAudioToAPI_try.cases)
     (auto simp: sendAudioToAPI_resume_def speak_def selectFloor_def speakValue_def
        split: sum.splits option.splits if_splits)

lemma resume_recorders [simp]: "recorders (sendAudioToAPI_resume eng out st) = recorders st"
  by (cases "(eng, out, st)" rule: sendAudioToAPI_try.cases)
     (auto simp: sendAudioToAPI_resume_def speak_def selectFloor_def speakValue_def
        split: sum.splits option.splits if_splits)

lemma resume_inflight [simp]: "inflight (sendAudioToAPI_resume eng out st) = inflight st"
  by (cases "(eng, out, st)" rule: sendAudioToAPI_try.cases)
     (auto simp: sendAudioToAPI_resume_def speak_def selectFloor_def speakValue_def
        split: sum.splits option.splits if_splits)

lemma resume_acquiring [simp]: "acquiring (sendAudioToAPI_resume eng out st) = acquiring st"
  by (cases "(eng, out, st)" rule: sendAudioToAPI_try.cases)
     (auto simp: sendAudioToAPI_resume_def speak_def selectFloor_def speakValue_def
        split: sum.splits option.splits if_splits)

lemma resume_mediaRecorder [simp]: "mediaRecorder (sendAudioToAPI_resume eng out st) = mediaRecorder st"
  by (cases "(eng, out, st)" rule: sendAudioToAPI_try.cases)
     (auto simp: sendAudioToAPI_resume_def speak_def selectFloor_def speakValue_def
        split: sum.splits option.splits if_splits)

subsection \<open>The invariant of orderly runs\<close>

lemma count_list_update:
  "i < length xs \<Longrightarrow>
   count_list (xs[i := y]) a + (if xs ! i = a then 1 else 0) =
   count_list xs a + (if y = a then 1 else 0)"
proof (induction xs arbitrary: i)
  case Nil
  then show ?case by simp
next
  case (Cons x xs)
  show ?case
  proof (cases i)
    case 0
    then show ?thesis by simp
  next
    case (Suc j)
    with Cons.prems have "j < length xs" by simp
    from Cons.IH [OF this] Suc show ?thesis by (simp split: if_splits)
  qed
qed

lemma tidy_init: "tidy (domContentLoaded b p s l)"
  by (simp add: tidy_def domContentLoaded_def speak_def)

lemma tidy_phases: "tidy st \<Longrightarrow> length (phases st) = 1"
  by (auto simp: tidy_def phases_def Let_def count_list_0_iff [symmetric] split: if_splits)

lemma tidy_step:
  assumes "tidy st" "enabled e st" "e = Click \<and> \<not> isListening st \<longrightarrow> settled st"
  shows "tidy (step eng e st)"
proof (cases e)
  case Click
  show ?thesis
  proof (cases "isListening st")
    case True
    then obtain r where r: "mediaRecorder st = Some r" "r < length (recorders st)"
        "recorders st ! r = Recording"
      using assms(1) by (auto simp: tidy_def split: option.splits)
    from count_list_update [OF r(2), of Stopping Recording]
         count_list_update [OF r(2), of Stopping Stopping] r(3) assms(1) True
    show ?thesis
      by (simp add: Click tidy_def voiceButton_click_def r recorder_stop_def speak_def)
  next
    case False
    with assms show ?thesis
      by (simp add: Click tidy_def voiceButton_click_def settled_def count_list_0_iff)
  qed
next
  case (Acquired out)
  with assms show ?thesis
    by (cases out) (auto simp: tidy_def speak_def split: if_splits)
next
  case (DataAvailable r d)
  with assms show ?thesis
    by (auto simp: tidy_def ondataavailable_def split: option.splits)
next
  case (RecorderStop r)
  with assms have r: "r < length (recorders st)" "recorders st ! r = Stopping" by simp_all
  from count_list_update [OF r(1), of Inactive Recording]
       count_list_update [OF r(1), of Inactive Stopping] r(2) assms(1)
  show ?thesis
    by (auto simp: RecorderStop tidy_def onstop_def sendAudioToAPI_def split: if_splits option.splits)
next
  case (TranscribeSettled out)
  with assms show ?thesis by (auto simp: tidy_def split: if_splits)
qed

lemma orderly_tidy:
  "tidy st \<Longrightarrow> orderly eng evs st \<Longrightarrow>
   tidy (run eng evs st) \<and> list_all (\<lambda>ps. length ps = 1) (phase_trace eng evs st)"
proof (induction evs arbitrary: st)
  case Nil
  then show ?case by simp
next
  case (Cons e evs)
  then have "tidy (step eng e st)"
    by (intro tidy_step) (auto split: if_splits)
  with Cons show ?case by (auto simp: tidy_phases)
qed

subsection \<open>The three ways the response handler ends\<close>

lemma resume_floor:
  "getProp eng result ''floor'' = Inr v \<Longrightarrow> truthy v \<Longrightarrow>
   sendAudioToAPI_resume eng (Responded code (JsonResolved result)) st =
   (case selectFloor eng v st of
      Inl m \<Rightarrow> speak (''Error processing voice input: '' @ m) st
    | Inr st' \<Rightarrow> st')"
  by (simp add: sendAudioToAPI_resume_def)

lemma resume_no_floor:
  "getProp eng result ''floor'' = Inr v \<Longrightarrow> \<not> truthy v \<Longrightarrow>
   getProp eng result ''message'' = Inr msg \<Longrightarrow>
   sendAudioToAPI_resume eng (Responded code (JsonResolved result)) st =
   speak (if truthy msg
          then (case toStr msg of
                  Some txt \<Rightarrow> txt
                | None \<Rightarrow> ''Error processing voice input: '' @ utteranceText eng msg)
          else ''No valid floor number recognized.'') st"
  by (simp add: sendAudioToAPI_resume_def speakValue_def split: option.splits)

lemma resume_failed:
  "sendAudioToAPI_try eng out st = Inl m \<Longrightarrow>
   sendAudioToAPI_resume eng out st = speak (''Error processing voice input: '' @ m) st"
  by (simp add: sendAudioToAPI_resume_def)

lemma resume_requests [simp]: "requests (sendAudioToAPI_resume eng out st) = requests st"
  by (cases "(eng, out, st)" rule: sendAudioToAPI_try.cases)
     (auto simp: sendAudioToAPI_resume_def speak_def selectFloor_def speakValue_def
        split: sum.splits option.splits if_splits)

lemma resume_audioChunks [simp]: "audioChunks (sendAudioToAPI_resume eng out st) = audioChunks st"
  by (cases "(eng, out, st)" rule: sendAudioToAPI_try.cases)
     (auto simp: sendAudioToAPI_resume_def speak_def selectFloor_def speakValue_def
        split: sum.splits option.splits if_splits)

lemma resume_phases: "phases (sendAudioToAPI_resume eng out st) = phases st"
  by (simp add: phases_def)

subsection \<open>The display\<close>

lemma step_display:
  assumes "\<not> floorRecognised eng e"
  shows "selectedFloorText (step eng e st) = selectedFloorText st \<and>
         selectedFloorLabel (step eng e st) = selectedFloorLabel st"
proof (cases e)
  case Click
  then show ?thesis
    by (simp add: voiceButton_click_def speak_def recorder_stop_def split: option.splits)
next
  case (Acquired out)
  then show ?thesis by (cases out) (simp_all add: speak_def)
next
  case (DataAvailable r d)
  then show ?thesis by (simp add: ondataavailable_def)
next
  case (RecorderStop r)
  then show ?thesis by (simp add: onstop_def sendAudioToAPI_def)
next
  case (TranscribeSettled out)
  with assms show ?thesis
    by (cases "(eng, out, st)" rule: sendAudioToAPI_try.cases)
       (auto simp: sendAudioToAPI_resume_def speak_def selectFloor_def speakValue_def
          split: sum.splits option.splits if_splits)
qed

subsection \<open>Events that leave a capture alone\<close>

lemma step_undisturbed:
  assumes "undisturbed r e"
  shows "audioChunks (step eng e st) = audioChunks st @ fragments r [e] \<and>
         requests (step eng e st) = requests st"
proof (cases e)
  case Click
  then show ?thesis
    by (simp add: voiceButton_click_def speak_def recorder_stop_def split: option.splits)
next
  case (Acquired out)
  with assms show ?thesis by (cases out) (simp_all add: speak_def)
next
  case (DataAvailable r' d)
  with assms show ?thesis by (simp add: ondataavailable_def)
next
  case (RecorderStop r')
  with assms show ?thesis by simp
next
  case (TranscribeSettled out)
  then show ?thesis by simp
qed

lemma fragments_Cons: "fragments r (e # es) = fragments r [e] @ fragments r es"
  by (cases "(r, e # es)" rule: fragments.cases) simp_all

lemma run_undisturbed:
  assumes "\<forall>e \<in> set evs. undisturbed r e"
  shows "audioChunks (run eng evs st) = audioChunks st @ fragments r evs \<and>
         requests (run eng evs st) = requests st"
  using assms
proof (induction evs arbitrary: st)
  case Nil
  then show ?case by simp
next
  case (Cons e evs)
  then have e: "undisturbed r e" and es: "\<forall>e \<in> set evs. undisturbed r e" by simp_all
  from step_undisturbed [OF e, of eng st] Cons.IH [OF es, of "step eng e st"]
  show ?case by (simp add: fragments_Cons [of r e evs])
qed

subsection \<open>From the stop click back to Idle\<close>

lemma phase_trace_append:
  "phase_trace eng (es @ fs) st = phase_trace eng es st @ phase_trace eng fs (run eng es st)"
  by (induction es arbitrary: st) simp_all

lemma phases_audioChunks [simp]: "phases (st\<lparr>audioChunks := cs\<rparr>) = phases st"
  by (simp add: phases_def)

lemma phase_trace_fragments:
  "phase_trace eng (map (DataAvailable r) ds) st = replicate (length ds) (phases st)"
  by (induction ds arbitrary: st) (simp_all add: ondataavailable_def)

lemma orderly_append:
  "orderly eng (es @ fs) st \<longleftrightarrow> orderly eng es st \<and> orderly eng fs (run eng es st)"
  by (induction es arbitrary: st) auto

lemma orderly_fragments:
  "r < length (recorders st) \<Longrightarrow> recorders st ! r \<noteq> Inactive \<Longrightarrow>
   orderly eng (map (DataAvailable r) ds) st"
  by (induction ds arbitrary: st) (simp_all add: ondataavailable_def)

lemma stop_from_listening:
  assumes "tidy st" and "isListening st"
  shows "\<exists>r. mediaRecorder st = Some r \<and>
           orderly eng (Click # map (DataAvailable r) ds @
                          [RecorderStop r, TranscribeSettled out]) st \<and>
           phase_trace eng (Click # map (DataAvailable r) ds @
                          [RecorderStop r, TranscribeSettled out]) st =
           replicate (Suc (length ds)) [Finalizing] @ [[Transcribing], [Idle]]"
proof -
  from assms obtain r where r: "mediaRecorder st = Some r" "r < length (recorders st)"
      "recorders st ! r = Recording"
    by (auto simp: tidy_def split: option.splits)
  from assms have z: "inflight st = 0" "Stopping \<notin> set (recorders st)"
    by (simp_all add: tidy_def count_list_0_iff [symmetric])
  let ?s1 = "step eng Click st"
  have s1: "recorders ?s1 = (recorders st)[r := Stopping]" "\<not> isListening ?s1" "inflight ?s1 = 0"
    using assms(2) r z by (simp_all add: voiceButton_click_def recorder_stop_def speak_def)
  have in1: "Stopping \<in> set ((recorders st)[r := Stopping])"
    using r(2) by (simp add: set_update_memI)
  have p1: "phases ?s1 = [Finalizing]"
    using s1 in1 by (simp add: phases_def)
  let ?s2 = "run eng (map (DataAvailable r) ds) ?s1"
  have out2: "Stopping \<notin> set ((recorders st)[r := Inactive])"
    using z(2) set_update_subset_insert [of "recorders st" r Inactive] by auto
  let ?s3 = "step eng (RecorderStop r) ?s2"
  have s3: "recorders ?s3 = (recorders st)[r := Inactive]" "\<not> isListening ?s3" "inflight ?s3 = 1"
    using s1 by (simp_all add: run_fragments onstop_def sendAudioToAPI_def)
  have p3: "phases ?s3 = [Transcribing]"
    using s3 out2 by (simp add: phases_def)
  let ?s4 = "step eng (TranscribeSettled out) ?s3"
  have s4: "recorders ?s4 = (recorders st)[r := Inactive]" "\<not> isListening ?s4" "inflight ?s4 = 0"
    using s3 by simp_all
  have p4: "phases ?s4 = [Idle]"
    using s4 out2 by (simp add: phases_def)
  have o2: "orderly eng (map (DataAvailable r) ds) ?s1"
    using r(2) s1 by (intro orderly_fragments) simp_all
  have e3: "enabled (RecorderStop r) ?s2"
    using r(2) s1 by (simp add: run_fragments)
  have e4: "enabled (TranscribeSettled out) ?s3"
    using s3 by simp
  have "orderly eng (Click # map (DataAvailable r) ds @
                          [RecorderStop r, TranscribeSettled out]) st"
    using assms(2) o2 e3 e4 by (simp add: orderly_append)
  moreover have "phase_trace eng (Click # map (DataAvailable r) ds @
                          [RecorderStop r, TranscribeSettled out]) st =
           replicate (Suc (length ds)) [Finalizing] @ [[Transcribing], [Idle]]"
    using p1 p3 p4 by (simp add: phase_trace_append phase_trace_fragments replicate_append_same)
  ultimately show ?thesis using r(1) by blast
qed

subsection \<open>Requests\<close>

lemma step_requests:
  "requests (step eng e st) =
   requests st @
   (case e of
      RecorderStop r \<Rightarrow>
        [\<lparr>url = ''http://127.0.0.1:8000/transcribe'', httpMethod = ''POST'',
          formData = [\<lparr>fieldName = ''file'', fileName = ''audio.webm'',
                       fileBlob = \<lparr>blobType = ''audio/webm'',
                                   blobBytes = concat (audioChunks st)\<rparr>\<rparr>]\<rparr>]
    | _ \<Rightarrow> [])"
proof (cases e)
  case Click
  then show ?thesis
    by (simp add: voiceButton_click_def speak_def recorder_stop_def split: option.splits)
next
  case (Acquired out)
  then show ?thesis by (cases out) (simp_all add: speak_def)
next
  case (DataAvailable r d)
  then show ?thesis by (simp add: ondataavailable_def)
next
  case (RecorderStop r)
  then show ?thesis by (simp add: onstop_def sendAudioToAPI_def)
next
  case (TranscribeSettled out)
  then show ?thesis by simp
qed

subsection \<open>A settled request in an orderly run\<close>

lemma settle_to_idle:
  assumes "tidy st" and "enabled (TranscribeSettled out) st"
  shows "phases (step eng (TranscribeSettled out) st) = [Idle]"
proof -
  from assms have "inflight st = 1" "\<not> isListening st" "Stopping \<notin> set (recorders st)"
    by (auto simp: tidy_def count_list_0_iff [symmetric] split: if_splits)
  then show ?thesis by (simp add: phases_def)
qed

section \<open>The claims\<close>

text \<open>
  Claim C1.  The response is a JSON object whose \<open>floor\<close> is the string \<open>5\<close>; the
  status code and the other members are arbitrary.  On every page, handling it sets the
  display to \<open>Selected: Floor 5\<close>, makes the one announcement \<open>Selected floor 5\<close> and
  logs the one line of the simulated command for floor \<open>5\<close>.  For a whole session that
  starts from a page that is not listening (any fragments before and after the stop
  click): the display ends as \<open>Selected: Floor 5\<close>, the session's announcements are the
  prompt, the stop notice and, once, \<open>Selected floor 5\<close>, and one line is logged.
\<close>

theorem floor_5_selected:
  assumes "map_of (rev kvs) ''floor'' = Some (Str ''5'')"
  shows "(let st' = step eng (TranscribeSettled (Responded code (JsonResolved (Obj kvs)))) st
          in selectedFloorText st' = ''Selected: Floor 5'' \<and>
             spoken st' = spoken st @ [''Selected floor 5''] \<and>
             consoleLog st' = consoleLog st @ [''Simulated Bluetooth command: FLOOR:5'']) \<and>
         (\<not> isListening st \<longrightarrow>
            (let st' = run eng (session_events (length (recorders st)) early late
                         (Responded code (JsonResolved (Obj kvs)))) st
             in selectedFloorText st' = ''Selected: Floor 5'' \<and>
                spoken st' = spoken st @ [''Please say the floor number.'',
                                          ''Voice input stopped.'', ''Selected floor 5''] \<and>
                consoleLog st' = consoleLog st @ [''Simulated Bluetooth command: FLOOR:5'']))"
proof -
  have "getProp eng (Obj kvs) ''floor'' = Inr (Some (Str ''5''))" "truthy (Some (Str ''5''))"
    using assms by simp_all
  then have "\<And>s. sendAudioToAPI_resume eng (Responded code (JsonResolved (Obj kvs))) s =
      (case selectFloor eng (Some (Str ''5'')) s of
         Inl m \<Rightarrow> speak (''Error processing voice input: '' @ m) s
       | Inr s' \<Rightarrow> s')"
    by (rule resume_floor)
  then show ?thesis
    by (simp add: Let_def run_session selectFloor_def speak_def captured_def)
qed

theorem floor_5_selected_witness:
  "map_of (rev [(''floor'', Str ''5'')]) ''floor'' = Some (Str ''5'') \<and>
   \<not> isListening examplePage \<and>
   (let st' = run exampleEngine (session_events 0 [[1, 2], [3]] []
                (Responded 200 (JsonResolved (Obj [(''floor'', Str ''5'')])))) examplePage
    in selectedFloorText st' = ''Selected: Floor 5'' \<and>
       spoken st' = spoken examplePage @ [''Please say the floor number.'',
                      ''Voice input stopped.'', ''Selected floor 5''] \<and>
       consoleLog st' = [''Simulated Bluetooth command: FLOOR:5''])"
proof -
  have h: "\<not> isListening examplePage" "length (recorders examplePage) = 0"
      "consoleLog examplePage = []"
    by (simp_all add: examplePage_def domContentLoaded_def speak_def)
  have k: "map_of (rev [(''floor'', Str ''5'')]) ''floor'' = Some (Str ''5'')" by simp
  from floor_5_selected [OF k, of exampleEngine 200 examplePage "[[1, 2], [3]]" "[]"] h k
  show ?thesis by simp
qed

text \<open>
  Claim C2, amended.  A capture runs from its successful start, which creates the
  recorder \<open>length (recorders st)\<close>, to that recorder's \<open>stop\<close> event.  If no event in
  between starts another capture or comes from another recorder, the request sent at
  the \<open>stop\<close> event carries exactly the fragments the recorder delivered in between, in
  arrival order, those flushed after the stop click included; whatever the buffer held
  before the start is not in it.  Clicks, failed acquisitions and the settling of
  earlier requests may fall in between.
\<close>

theorem payload_of_undisturbed_session:
  assumes "\<forall>e \<in> set evs. undisturbed (length (recorders st)) e"
  shows "map payload (requests (run eng
           (Acquired Started # evs @ [RecorderStop (length (recorders st))]) st)) =
         map payload (requests st) @ [concat (fragments (length (recorders st)) evs)]"
proof -
  let ?s = "step eng (Acquired Started) st"
  have "audioChunks ?s = []" "requests ?s = requests st"
    by (simp_all add: speak_def)
  with run_undisturbed [OF assms, of eng ?s]
  have "audioChunks (run eng evs ?s) = fragments (length (recorders st)) evs"
       "requests (run eng evs ?s) = requests st"
    by simp_all
  then show ?thesis
    by (simp add: run_append onstop_def sendAudioToAPI_def payload_def)
qed

theorem payload_of_undisturbed_session_witness:
  "list_all (undisturbed (length (recorders examplePage)))
     [DataAvailable 0 [1, 2], TranscribeSettled (FetchRejected ''late''), Click,
      DataAvailable 0 [3]] \<and>
   map payload (requests (run exampleEngine
      (Acquired Started #
       [DataAvailable 0 [1, 2], TranscribeSettled (FetchRejected ''late''), Click,
        DataAvailable 0 [3]] @
       [RecorderStop (length (recorders examplePage))]) examplePage)) = [[1, 2, 3]]"
proof -
  have n: "length (recorders examplePage) = 0" "requests examplePage = []"
    by (simp_all add: examplePage_def domContentLoaded_def speak_def)
  have h: "\<forall>e \<in> set [DataAvailable 0 [1, 2], TranscribeSettled (FetchRejected ''late''), Click,
               DataAvailable 0 [3]].
      undisturbed (length (recorders examplePage)) e"
    by (simp add: n)
  from payload_of_undisturbed_session [OF h, of exampleEngine] h
  show ?thesis by (simp add: n list_all_iff)
qed

text \<open>
  Claim C2 as stated fails when a second capture starts while the first recorder is
  still flushing: \<open>stop()\<close> only asks the recorder to deliver its last fragment, and the
  script accepts the next click at once.  The first recorder's fragment \<open>[1]\<close> then lands
  in the buffer the second start has cleared, and the second session, whose recorder
  delivered only \<open>[2]\<close>, sends \<open>[1, 2]\<close>.
\<close>

theorem overlapping_sessions_counterexample:
  "feasible exampleEngine
     [Click, Acquired Started, Click, Click, Acquired Started, DataAvailable 0 [1],
      RecorderStop 0, Click, DataAvailable 1 [2], RecorderStop 1] examplePage \<and>
   fragments 1
     [Click, Acquired Started, Click, Click, Acquired Started, DataAvailable 0 [1],
      RecorderStop 0, Click, DataAvailable 1 [2], RecorderStop 1] = [[2]] \<and>
   map payload (requests (run exampleEngine
     [Click, Acquired Started, Click, Click, Acquired Started, DataAvailable 0 [1],
      RecorderStop 0, Click, DataAvailable 1 [2], RecorderStop 1] examplePage)) =
     [[1], [1, 2]]"
  by (simp add: examplePage_def domContentLoaded_def speak_def voiceButton_click_def
      recorder_stop_def ondataavailable_def onstop_def sendAudioToAPI_def payload_def)

text \<open>
  Claim C3, amended.  In a run from the loaded page in which every event is one the
  browser can deliver and a start is clicked only when nothing of an earlier session is
  outstanding, the page is in exactly one phase after every event, one of Idle,
  Listening, Finalizing and Transcribing.  And whenever such a run has led to Listening,
  the stop click and what follows it (any fragments, the recorder's \<open>stop\<close> event, any
  outcome of the request) can be delivered and lead through Finalizing and Transcribing
  to Idle, which is reached once, with the last event.
\<close>

theorem orderly_runs_single_phase:
  assumes "orderly eng evs (domContentLoaded b p s l)"
  shows "list_all (\<lambda>ps. length ps = 1)
           (phases (domContentLoaded b p s l) # phase_trace eng evs (domContentLoaded b p s l)) \<and>
         (isListening (run eng evs (domContentLoaded b p s l)) \<longrightarrow>
           (\<exists>r. mediaRecorder (run eng evs (domContentLoaded b p s l)) = Some r \<and>
              orderly eng (Click # map (DataAvailable r) ds @
                             [RecorderStop r, TranscribeSettled out])
                (run eng evs (domContentLoaded b p s l)) \<and>
              phase_trace eng (Click # map (DataAvailable r) ds @
                                 [RecorderStop r, TranscribeSettled out])
                (run eng evs (domContentLoaded b p s l)) =
              replicate (Suc (length ds)) [Finalizing] @ [[Transcribing], [Idle]]))"
proof -
  let ?init = "domContentLoaded b p s l"
  from orderly_tidy [OF tidy_init assms]
  have t: "tidy (run eng evs ?init)"
    and a: "list_all (\<lambda>ps. length ps = 1) (phase_trace eng evs ?init)"
    by simp_all
  from tidy_phases [OF tidy_init, of b p s l] a
  have "list_all (\<lambda>ps. length ps = 1) (phases ?init # phase_trace eng evs ?init)"
    by simp
  with stop_from_listening [OF t] show ?thesis by blast
qed

theorem orderly_runs_single_phase_witness:
  "orderly exampleEngine [Click, Acquired Started, DataAvailable 0 [1]] examplePage \<and>
   phases examplePage # phase_trace exampleEngine [Click, Acquired Started, DataAvailable 0 [1]] examplePage =
     [[Idle], [Idle], [Listening], [Listening]] \<and>
   isListening (run exampleEngine [Click, Acquired Started, DataAvailable 0 [1]] examplePage) \<and>
   mediaRecorder (run exampleEngine [Click, Acquired Started, DataAvailable 0 [1]] examplePage) = Some 0 \<and>
   phase_trace exampleEngine
     (Click # map (DataAvailable 0) [[2], [3]] @
        [RecorderStop 0, TranscribeSettled (Responded 200 (JsonResolved (Obj [(''floor'', Str ''5'')])))])
     (run exampleEngine [Click, Acquired Started, DataAvailable 0 [1]] examplePage) =
     [[Finalizing], [Finalizing], [Finalizing], [Transcribing], [Idle]]"
proof -
  have o: "orderly exampleEngine [Click, Acquired Started, DataAvailable 0 [1]]
      (domContentLoaded ''Start Voice Input'' (Some ''false'') [] None)"
    by (simp add: domContentLoaded_def speak_def voiceButton_click_def settled_def)
  have m: "isListening (run exampleEngine [Click, Acquired Started, DataAvailable 0 [1]] examplePage)"
     "mediaRecorder (run exampleEngine [Click, Acquired Started, DataAvailable 0 [1]] examplePage) = Some 0"
    by (simp_all add: examplePage_def domContentLoaded_def speak_def voiceButton_click_def ondataavailable_def)
  have t: "phases examplePage # phase_trace exampleEngine [Click, Acquired Started, DataAvailable 0 [1]] examplePage =
     [[Idle], [Idle], [Listening], [Listening]]"
    by (simp add: examplePage_def domContentLoaded_def speak_def voiceButton_click_def
        ondataavailable_def phases_def)
  from orderly_runs_single_phase [OF o, of "[[2], [3]]"
      "Responded 200 (JsonResolved (Obj [(''floor'', Str ''5'')]))"] m
  have "phase_trace exampleEngine
     (Click # map (DataAvailable 0) [[2], [3]] @
        [RecorderStop 0, TranscribeSettled (Responded 200 (JsonResolved (Obj [(''floor'', Str ''5'')])))])
     (run exampleEngine [Click, Acquired Started, DataAvailable 0 [1]] examplePage) =
     replicate (Suc (length [[2::8 word], [3]])) [Finalizing] @ [[Transcribing], [Idle]]"
    unfolding examplePage_def by auto
  then have "phase_trace exampleEngine
     (Click # map (DataAvailable 0) [[2], [3]] @
        [RecorderStop 0, TranscribeSettled (Responded 200 (JsonResolved (Obj [(''floor'', Str ''5'')])))])
     (run exampleEngine [Click, Acquired Started, DataAvailable 0 [1]] examplePage) =
     [[Finalizing], [Finalizing], [Finalizing], [Transcribing], [Idle]]"
    by (simp add: numeral_2_eq_2)
  with o m t show ?thesis by (simp add: examplePage_def)
qed

text \<open>
  Claim C3 as stated fails: the script accepts a start click while the request of the
  session before is in flight, and the page is then both Listening and Transcribing.
\<close>

theorem listening_while_transcribing_counterexample:
  "feasible exampleEngine
     [Click, Acquired Started, Click, RecorderStop 0, Click, Acquired Started] examplePage \<and>
   phases (run exampleEngine
     [Click, Acquired Started, Click, RecorderStop 0, Click, Acquired Started] examplePage) =
     [Listening, Transcribing]"
  by (simp add: examplePage_def domContentLoaded_def speak_def voiceButton_click_def
      recorder_stop_def onstop_def sendAudioToAPI_def phases_def)



text \<open>
  Claim C5, amended.  The request fails, because \<open>fetch\<close> rejects or because the body of
  the response does not parse, the error's message being \<open>m\<close>.  On every page, handling
  the failure announces the processing error (the fixed text
  \<open>Error processing voice input: \<close> followed by \<open>m\<close>), sends no further request and
  leaves the flag and the display as they are.  The handler blocks nothing and resets
  nothing, so the page is Idle afterwards when no other session is under way: in
  every run from the loaded page in which a start is clicked only when nothing of an
  earlier session is outstanding, the page is Idle once the failure is handled.
\<close>

theorem transcription_failure:
  assumes "out = FetchRejected m \<or> out = Responded code (JsonRejected m)"
  shows "(let st' = step eng (TranscribeSettled out) st
          in spoken st' = spoken st @ [''Error processing voice input: '' @ m] \<and>
             isListening st' = isListening st \<and> requests st' = requests st \<and>
             selectedFloorText st' = selectedFloorText st \<and>
             selectedFloorLabel st' = selectedFloorLabel st) \<and>
         (orderly eng (evs @ [TranscribeSettled out]) (domContentLoaded b p s l) \<longrightarrow>
            phases (run eng (evs @ [TranscribeSettled out]) (domContentLoaded b p s l)) = [Idle])"
proof -
  have "\<And>s. sendAudioToAPI_try eng out s = Inl m"
    using assms by auto
  then have r: "\<And>s. sendAudioToAPI_resume eng out s =
      speak (''Error processing voice input: '' @ m) s"
    by (rule resume_failed)
  have 1: "let st' = step eng (TranscribeSettled out) st
          in spoken st' = spoken st @ [''Error processing voice input: '' @ m] \<and>
             isListening st' = isListening st \<and> requests st' = requests st \<and>
             selectedFloorText st' = selectedFloorText st \<and>
             selectedFloorLabel st' = selectedFloorLabel st"
    by (simp add: r speak_def)
  have 2: "phases (run eng (evs @ [TranscribeSettled out]) (domContentLoaded b p s l)) = [Idle]"
    if o: "orderly eng (evs @ [TranscribeSettled out]) (domContentLoaded b p s l)"
  proof -
    from o have "orderly eng evs (domContentLoaded b p s l)"
      and e: "enabled (TranscribeSettled out) (run eng evs (domContentLoaded b p s l))"
      by (simp_all add: orderly_append)
    from orderly_tidy [OF tidy_init this(1)]
    have "tidy (run eng evs (domContentLoaded b p s l))" by simp
    from settle_to_idle [OF this e] show ?thesis by (simp add: run_append)
  qed
  from 1 2 show ?thesis by blast
qed

theorem transcription_failure_witness:
  "orderly exampleEngine
     ([Click, Acquired Started, DataAvailable 0 [7], Click, DataAvailable 0 [8, 9], RecorderStop 0] @
      [TranscribeSettled (FetchRejected ''Failed to fetch'')]) examplePage \<and>
   phases (run exampleEngine
     ([Click, Acquired Started, DataAvailable 0 [7], Click, DataAvailable 0 [8, 9], RecorderStop 0] @
      [TranscribeSettled (FetchRejected ''Failed to fetch'')]) examplePage) = [Idle] \<and>
   spoken (step exampleEngine (TranscribeSettled (FetchRejected ''Failed to fetch'')) examplePage) =
     spoken examplePage @ [''Error processing voice input: Failed to fetch'']"
proof -
  have o: "orderly exampleEngine
     ([Click, Acquired Started, DataAvailable 0 [7], Click, DataAvailable 0 [8, 9], RecorderStop 0] @
      [TranscribeSettled (FetchRejected ''Failed to fetch'')])
     (domContentLoaded ''Start Voice Input'' (Some ''false'') [] None)"
    by (simp add: domContentLoaded_def speak_def voiceButton_click_def recorder_stop_def
        ondataavailable_def onstop_def sendAudioToAPI_def settled_def)
  from transcription_failure [where out = "FetchRejected ''Failed to fetch''"
      and m = "''Failed to fetch''" and eng = exampleEngine and st = examplePage
      and evs = "[Click, Acquired Started, DataAvailable 0 [7], Click, DataAvailable 0 [8, 9],
                  RecorderStop 0]"
      and b = "''Start Voice Input''" and p = "Some ''false''" and s = "[]" and l = None] o
  show ?thesis by (simp add: examplePage_def Let_def)
qed

text \<open>
  Claim C5 as stated fails where it says that the machine returns to Idle: the script
  accepts a start click while the request is in flight, and when the request then
  fails the page is Listening.
\<close>

theorem failure_while_listening_counterexample:
  "feasible exampleEngine
     [Click, Acquired Started, Click, RecorderStop 0, Click, Acquired Started,
      TranscribeSettled (FetchRejected ''Failed to fetch'')] examplePage \<and>
   phases (run exampleEngine
     [Click, Acquired Started, Click, RecorderStop 0, Click, Acquired Started,
      TranscribeSettled (FetchRejected ''Failed to fetch'')] examplePage) = [Listening] \<and>
   last (spoken (run exampleEngine
     [Click, Acquired Started, Click, RecorderStop 0, Click, Acquired Started,
      TranscribeSettled (FetchRejected ''Failed to fetch'')] examplePage)) =
     ''Error processing voice input: Failed to fetch''"
  by (simp add: examplePage_def domContentLoaded_def speak_def voiceButton_click_def
      recorder_stop_def onstop_def sendAudioToAPI_def sendAudioToAPI_resume_def phases_def)

text \<open>
  Claim C6, amended.  The response resolves to a JSON value other than \<open>null\<close> (both
  property reads succeed) whose \<open>floor\<close> is not truthy.  Then the announcement is the
  \<open>message\<close>, converted to a string, when that is truthy, and the fixed fallback
  otherwise, also when a \<open>message\<close> is present but falsy.  A truthy \<open>message\<close> that cannot
  be converted (an object with a member \<open>toString\<close> of its own, or an array holding one)
  makes \<open>speak\<close> throw, and the processing error is announced instead.  The display is
  untouched in every case.  This holds for the handling of the response on every page,
  and as the last announcement of a whole session.  The response
  \<open>{"message": "Could not understand audio"}\<close> after an empty capture, the instance that
  follows the theorem, is announced as \<open>Could not understand audio\<close>.
\<close>

theorem no_floor_announcement:
  assumes "getProp eng result ''floor'' = Inr floor" and "\<not> truthy floor"
    and "getProp eng result ''message'' = Inr msg"
  shows "(let st' = step eng (TranscribeSettled (Responded code (JsonResolved result))) st;
              said = (if truthy msg
                      then (case toStr msg of
                              Some txt \<Rightarrow> txt
                            | None \<Rightarrow> ''Error processing voice input: '' @ utteranceText eng msg)
                      else ''No valid floor number recognized.'')
          in spoken st' = spoken st @ [said] \<and>
             selectedFloorText st' = selectedFloorText st \<and>
             selectedFloorLabel st' = selectedFloorLabel st) \<and>
         (\<not> isListening st \<longrightarrow>
            (let st' = run eng (session_events (length (recorders st)) early late
                         (Responded code (JsonResolved result))) st;
                 said = (if truthy msg
                         then (case toStr msg of
                                 Some txt \<Rightarrow> txt
                               | None \<Rightarrow> ''Error processing voice input: '' @ utteranceText eng msg)
                         else ''No valid floor number recognized.'')
             in spoken st' = spoken st @ [''Please say the floor number.'',
                   ''Voice input stopped.'', said] \<and>
                selectedFloorText st' = selectedFloorText st \<and>
                selectedFloorLabel st' = selectedFloorLabel st))"
proof -
  have "\<And>s. sendAudioToAPI_resume eng (Responded code (JsonResolved result)) s =
      speak (if truthy msg
             then (case toStr msg of
                     Some txt \<Rightarrow> txt
                   | None \<Rightarrow> ''Error processing voice input: '' @ utteranceText eng msg)
             else ''No valid floor number recognized.'') s"
    using assms by (rule resume_no_floor)
  then show ?thesis
    by (simp add: Let_def run_session speak_def captured_def)
qed

theorem no_floor_announcement_witness:
  "getProp exampleEngine (Obj [(''message'', Str ''Could not understand audio'')]) ''floor'' = Inr None \<and>
   \<not> truthy None \<and>
   getProp exampleEngine (Obj [(''message'', Str ''Could not understand audio'')]) ''message'' =
     Inr (Some (Str ''Could not understand audio'')) \<and>
   \<not> isListening examplePage \<and>
   (let st' = run exampleEngine (session_events 0 [] []
        (Responded 200 (JsonResolved (Obj [(''message'', Str ''Could not understand audio'')]))))
        examplePage
    in spoken st' = spoken examplePage @ [''Please say the floor number.'', ''Voice input stopped.'',
                           ''Could not understand audio''] \<and>
       selectedFloorText st' = selectedFloorText examplePage \<and>
       selectedFloorLabel st' = selectedFloorLabel examplePage)"
proof -
  have h: "\<not> isListening examplePage" "length (recorders examplePage) = 0"
    by (simp_all add: examplePage_def domContentLoaded_def speak_def)
  have g: "getProp exampleEngine (Obj [(''message'', Str ''Could not understand audio'')]) ''floor'' = Inr None"
    "\<not> truthy None"
    "getProp exampleEngine (Obj [(''message'', Str ''Could not understand audio'')]) ''message'' =
     Inr (Some (Str ''Could not understand audio''))"
    by simp_all
  from no_floor_announcement [OF g, of 200 examplePage "[]" "[]"] h g show ?thesis
    by (simp add: Let_def)
qed

text \<open>
  Claim C6 as stated fails at two responses that lack a floor: for the object
  \<open>{"message": ""}\<close> the message is present and the fallback is spoken instead of it; for
  the body \<open>null\<close> the read of \<open>floor\<close> throws and the processing error is spoken.
\<close>

theorem empty_message_counterexample:
  "getProp exampleEngine (Obj [(''message'', Str '''')]) ''message'' = Inr (Some (Str '''')) \<and>
   spoken (run exampleEngine (session_events 0 [] []
      (Responded 200 (JsonResolved (Obj [(''message'', Str '''')])))) examplePage) =
     spoken examplePage @ [''Please say the floor number.'', ''Voice input stopped.'',
                           ''No valid floor number recognized.''] \<and>
   spoken (run exampleEngine (session_events 0 [] []
      (Responded 200 (JsonResolved Null))) examplePage) =
     spoken examplePage @ [''Please say the floor number.'', ''Voice input stopped.'',
                           ''Error processing voice input: result is null'']"
proof -
  have h: "\<not> isListening examplePage"
    by (simp add: examplePage_def domContentLoaded_def speak_def)
  show ?thesis
    by (simp add: run_session [OF h] sendAudioToAPI_resume_def speak_def captured_def
        exampleEngine_def)
qed

text \<open>
  Claim C7.  Requests are sent by the recorder's \<open>stop\<close> event and by nothing else, one
  for each such event: a \<open>POST\<close> to \<open>http://127.0.0.1:8000/transcribe\<close> whose form has
  the single entry \<open>file\<close>, with file name \<open>audio.webm\<close>, media type \<open>audio/webm\<close> and
  the buffered fragments as bytes.  A session from a page that is not listening
  therefore sends exactly one request, whatever its outcome, and it carries the
  session's fragments in arrival order.
\<close>

theorem one_request_per_session:
  "requests (step eng e st) =
     requests st @
     (case e of
        RecorderStop r \<Rightarrow>
          [\<lparr>url = ''http://127.0.0.1:8000/transcribe'', httpMethod = ''POST'',
            formData = [\<lparr>fieldName = ''file'', fileName = ''audio.webm'',
                         fileBlob = \<lparr>blobType = ''audio/webm'',
                                     blobBytes = concat (audioChunks st)\<rparr>\<rparr>]\<rparr>]
      | _ \<Rightarrow> []) \<and>
   (\<not> isListening st \<longrightarrow>
      requests (run eng (session_events (length (recorders st)) early late out) st) =
      requests st @
      [\<lparr>url = ''http://127.0.0.1:8000/transcribe'', httpMethod = ''POST'',
        formData = [\<lparr>fieldName = ''file'', fileName = ''audio.webm'',
                     fileBlob = \<lparr>blobType = ''audio/webm'',
                                 blobBytes = concat (early @ late)\<rparr>\<rparr>]\<rparr>])"
  using step_requests [of eng e st]
  by (simp add: run_session captured_def)

theorem one_request_per_session_witness:
  "\<not> isListening examplePage \<and>
   requests (run exampleEngine (session_events 0 [[1, 2], [3]] [[4]]
               (Responded 200 (JsonResolved (Obj [(''floor'', Str ''5'')])))) examplePage) =
   [\<lparr>url = ''http://127.0.0.1:8000/transcribe'', httpMethod = ''POST'',
     formData = [\<lparr>fieldName = ''file'', fileName = ''audio.webm'',
                  fileBlob = \<lparr>blobType = ''audio/webm'', blobBytes = [1, 2, 3, 4]\<rparr>\<rparr>]\<rparr>]"
proof -
  have h: "\<not> isListening examplePage" "length (recorders examplePage) = 0"
      "requests examplePage = []"
    by (simp_all add: examplePage_def domContentLoaded_def speak_def)
  from one_request_per_session [where st = examplePage and eng = exampleEngine
      and early = "[[1, 2], [3]]" and late = "[[4]]" and e = Click
      and out = "Responded 200 (JsonResolved (Obj [(''floor'', Str ''5'')]))"] h
  show ?thesis by simp
qed

text \<open>
  Claim C8.  The text of the floor region and its label change only on an event on which
  a floor is recognised: over any run without such an event, whatever else happens in
  it (failed acquisitions, failed requests, responses without a floor, clicks,
  fragments), both are what they were.
\<close>

theorem display_only_on_floor:
  assumes "\<forall>e \<in> set evs. \<not> floorRecognised eng e"
  shows "selectedFloorText (run eng evs st) = selectedFloorText st \<and>
         selectedFloorLabel (run eng evs st) = selectedFloorLabel st"
  using assms
proof (induction evs arbitrary: st)
  case Nil
  then show ?case by simp
next
  case (Cons e evs)
  then have "\<not> floorRecognised eng e" and "\<forall>e \<in> set evs. \<not> floorRecognised eng e"
    by simp_all
  from step_display [OF this(1), of st] Cons.IH [OF this(2), of "step eng e st"]
  show ?case by simp
qed

theorem display_only_on_floor_witness:
  "list_all (\<lambda>e. \<not> floorRecognised exampleEngine e)
     ([Click, Acquired (GumRejected ''Permission denied'')] @
      session_events 0 [[1]] [] (FetchRejected ''Failed to fetch'') @
      session_events 1 [] [] (Responded 200 (JsonResolved
          (Obj [(''message'', Str ''Could not understand audio'')])))) \<and>
   selectedFloorText (run exampleEngine
      ([Click, Acquired (GumRejected ''Permission denied'')] @
       session_events 0 [[1]] [] (FetchRejected ''Failed to fetch'') @
       session_events 1 [] [] (Responded 200 (JsonResolved
           (Obj [(''message'', Str ''Could not understand audio'')])))) examplePage) = [] \<and>
   selectedFloorLabel (run exampleEngine
      ([Click, Acquired (GumRejected ''Permission denied'')] @
       session_events 0 [[1]] [] (FetchRejected ''Failed to fetch'') @
       session_events 1 [] [] (Responded 200 (JsonResolved
           (Obj [(''message'', Str ''Could not understand audio'')])))) examplePage) = None"
proof -
  let ?evs = "[Click, Acquired (GumRejected ''Permission denied'')] @
              session_events 0 [[1]] [] (FetchRejected ''Failed to fetch'') @
              session_events 1 [] [] (Responded 200 (JsonResolved
                  (Obj [(''message'', Str ''Could not understand audio'')])))"
  have h: "\<forall>e \<in> set ?evs. \<not> floorRecognised exampleEngine e"
    by (simp add: session_events_def)
  have "selectedFloorText examplePage = []" "selectedFloorLabel examplePage = None"
    by (simp_all add: examplePage_def domContentLoaded_def speak_def)
  with display_only_on_floor [OF h, of examplePage] h show ?thesis
    by (simp add: list_all_iff)
qed

text \<open>
  Claim C9, amended.  A response object whose \<open>floor\<close> is present but is the number \<open>0\<close>
  or the empty string takes the no-floor path, on every page and with every status
  code: the display is not touched and no command is logged.  The announcement is the
  \<open>message\<close>, converted to a string, when that is truthy, and the fixed fallback when it
  is not; a truthy \<open>message\<close> that cannot be converted (an object with a member
  \<open>toString\<close> of its own, or an array holding one) makes \<open>speak\<close> throw, and the
  processing error is announced.
\<close>

theorem falsy_floor_is_no_floor:
  assumes "map_of (rev kvs) ''floor'' = Some floor" and "floor = Num ''0'' \<or> floor = Str ''''"
  shows "let st' = step eng (TranscribeSettled (Responded code (JsonResolved (Obj kvs)))) st;
             msg = map_of (rev kvs) ''message'';
             said = (if truthy msg
                     then (case toStr msg of
                             Some txt \<Rightarrow> txt
                           | None \<Rightarrow> ''Error processing voice input: '' @ utteranceText eng msg)
                     else ''No valid floor number recognized.'')
         in spoken st' = spoken st @ [said] \<and>
            selectedFloorText st' = selectedFloorText st \<and>
            selectedFloorLabel st' = selectedFloorLabel st \<and>
            consoleLog st' = consoleLog st"
proof -
  have "getProp eng (Obj kvs) ''floor'' = Inr (Some floor)" "\<not> truthy (Some floor)"
       "getProp eng (Obj kvs) ''message'' = Inr (map_of (rev kvs) ''message'')"
    using assms by auto
  from resume_no_floor [OF this] show ?thesis
    by (simp add: speak_def Let_def)
qed

theorem falsy_floor_is_no_floor_witness:
  "map_of (rev [(''floor'', Num ''0''), (''message'', Str ''Ground floor is not served'')]) ''floor'' =
     Some (Num ''0'') \<and>
   map_of (rev [(''floor'', Str '''')]) ''floor'' = Some (Str '''') \<and>
   (let st0 = step exampleEngine (TranscribeSettled (Responded 200 (JsonResolved
               (Obj [(''floor'', Num ''0''), (''message'', Str ''Ground floor is not served'')]))))
               examplePage;
        st1 = step exampleEngine (TranscribeSettled (Responded 200 (JsonResolved
               (Obj [(''floor'', Str '''')])))) examplePage
    in spoken st0 = spoken examplePage @ [''Ground floor is not served''] \<and>
       selectedFloorText st0 = selectedFloorText examplePage \<and>
       consoleLog st0 = consoleLog examplePage \<and>
       spoken st1 = spoken examplePage @ [''No valid floor number recognized.''] \<and>
       selectedFloorText st1 = selectedFloorText examplePage \<and>
       consoleLog st1 = consoleLog examplePage)"
  using falsy_floor_is_no_floor [where kvs = "[(''floor'', Num ''0''), (''message'', Str ''Ground floor is not served'')]"
      and floor = "Num ''0''" and eng = exampleEngine and code = 200 and st = examplePage]
    falsy_floor_is_no_floor [where kvs = "[(''floor'', Str '''')]"
      and floor = "Str ''''" and eng = exampleEngine and code = 200 and st = examplePage]
  by (simp add: Let_def)

text \<open>
  Claim C9 as stated fails where it says that the server message or the fallback is
  spoken: for \<open>{"floor": 0, "message": {"toString": 1}}\<close> the message is truthy, \<open>speak\<close>
  throws on it, and the \<open>catch\<close> clause announces the processing error.
\<close>

theorem unspeakable_message_counterexample:
  "map_of (rev [(''floor'', Num ''0''), (''message'', Obj [(''toString'', Num ''1'')])]) ''floor'' =
     Some (Num ''0'') \<and>
   spoken (step exampleEngine (TranscribeSettled (Responded 200 (JsonResolved
      (Obj [(''floor'', Num ''0''), (''message'', Obj [(''toString'', Num ''1'')])])))) examplePage) =
     spoken examplePage @
       [''Error processing voice input: cannot convert the text to a primitive'']"
  by (simp add: sendAudioToAPI_resume_def speakValue_def speak_def exampleEngine_def)

text \<open>
  Claim C10, amended.  The status code of a response has no influence on what the
  handler does.  With any status code a truthy \<open>floor\<close> goes to \<open>selectFloor\<close> and,
  without one, a truthy \<open>message\<close> goes to \<open>speak\<close>; either takes effect unless the
  conversion of the value to a string throws.  The \<open>catch\<close> clause runs exactly when
  \<open>fetch\<close> rejects, when \<open>json()\<close> rejects, when the body parses to \<open>null\<close>, or when
  the value to announce, the truthy \<open>floor\<close> or else the truthy \<open>message\<close>, cannot be
  converted to a string (an object with a member \<open>toString\<close> of its own, or an array
  holding one).
\<close>

theorem status_not_inspected:
  "step eng (TranscribeSettled (Responded code body)) st =
     step eng (TranscribeSettled (Responded code' body)) st \<and>
   (getProp eng result ''floor'' = Inr floor \<and> truthy floor \<longrightarrow>
      step eng (TranscribeSettled (Responded code (JsonResolved result))) st =
        (case selectFloor eng floor (st\<lparr>inflight := inflight st - 1\<rparr>) of
           Inr st' \<Rightarrow> st'
         | Inl m \<Rightarrow> speak (''Error processing voice input: '' @ m)
                     (st\<lparr>inflight := inflight st - 1\<rparr>))) \<and>
   (getProp eng result ''floor'' = Inr floor \<and> \<not> truthy floor \<and>
    getProp eng result ''message'' = Inr msg \<and> truthy msg \<longrightarrow>
      step eng (TranscribeSettled (Responded code (JsonResolved result))) st =
        (case speakValue eng msg (st\<lparr>inflight := inflight st - 1\<rparr>) of
           Inr st' \<Rightarrow> st'
         | Inl m \<Rightarrow> speak (''Error processing voice input: '' @ m)
                     (st\<lparr>inflight := inflight st - 1\<rparr>))) \<and>
   (isl (sendAudioToAPI_try eng out st) \<longleftrightarrow>
      (\<exists>m. out = FetchRejected m) \<or> (\<exists>c m. out = Responded c (JsonRejected m)) \<or>
      (\<exists>c. out = Responded c (JsonResolved Null)) \<or>
      (\<exists>c res fl. out = Responded c (JsonResolved res) \<and>
          getProp eng res ''floor'' = Inr fl \<and> truthy fl \<and> toStr fl = None) \<or>
      (\<exists>c res fl ms. out = Responded c (JsonResolved res) \<and>
          getProp eng res ''floor'' = Inr fl \<and> \<not> truthy fl \<and>
          getProp eng res ''message'' = Inr ms \<and> truthy ms \<and> toStr ms = None))"
proof -
  have 1: "step eng (TranscribeSettled (Responded code body)) st =
     step eng (TranscribeSettled (Responded code' body)) st"
    by (cases body) (simp_all add: sendAudioToAPI_resume_def)
  have 2: "isl (sendAudioToAPI_try eng out st) \<longleftrightarrow>
      (\<exists>m. out = FetchRejected m) \<or> (\<exists>c m. out = Responded c (JsonRejected m)) \<or>
      (\<exists>c. out = Responded c (JsonResolved Null)) \<or>
      (\<exists>c res fl. out = Responded c (JsonResolved res) \<and>
          getProp eng res ''floor'' = Inr fl \<and> truthy fl \<and> toStr fl = None) \<or>
      (\<exists>c res fl ms. out = Responded c (JsonResolved res) \<and>
          getProp eng res ''floor'' = Inr fl \<and> \<not> truthy fl \<and>
          getProp eng res ''message'' = Inr ms \<and> truthy ms \<and> toStr ms = None)"
  proof (cases out)
    case (FetchRejected m)
    then show ?thesis by simp
  next
    case (Responded c body)
    show ?thesis
    proof (cases body)
      case (JsonRejected m)
      with Responded show ?thesis by simp
    next
      case (JsonResolved res)
      show ?thesis
      proof (cases "getProp eng res ''floor''")
        case (Inl m)
        then have "res = Null" by (cases res) simp_all
        with Responded JsonResolved show ?thesis by simp
      next
        case (Inr fl)
        then have n: "res \<noteq> Null" by auto
        then obtain ms where ms: "getProp eng res ''message'' = Inr ms"
          by (cases res) simp_all
        from Responded JsonResolved Inr ms n show ?thesis
          by (auto simp: selectFloor_def speakValue_def split: option.splits)
      qed
    qed
  qed
  from 1 2 show ?thesis
    by (simp add: sendAudioToAPI_resume_def split: sum.splits)
qed

theorem status_not_inspected_witness:
  "getProp exampleEngine (Obj [(''floor'', Num ''3'')]) ''floor'' = Inr (Some (Num ''3'')) \<and>
   truthy (Some (Num ''3'')) \<and>
   selectedFloorText (step exampleEngine
     (TranscribeSettled (Responded 500 (JsonResolved (Obj [(''floor'', Num ''3'')])))) examplePage) =
     ''Selected: Floor 3'' \<and>
   getProp exampleEngine (Obj [(''message'', Str ''Server error'')]) ''floor'' = Inr None \<and>
   \<not> truthy None \<and>
   getProp exampleEngine (Obj [(''message'', Str ''Server error'')]) ''message'' =
     Inr (Some (Str ''Server error'')) \<and>
   truthy (Some (Str ''Server error'')) \<and>
   spoken (step exampleEngine
     (TranscribeSettled (Responded 404 (JsonResolved (Obj [(''message'', Str ''Server error'')]))))
     examplePage) = spoken examplePage @ [''Server error'']"
proof -
  have g: "getProp exampleEngine (Obj [(''floor'', Num ''3'')]) ''floor'' = Inr (Some (Num ''3''))"
      "truthy (Some (Num ''3''))"
      "getProp exampleEngine (Obj [(''message'', Str ''Server error'')]) ''floor'' = Inr None"
      "\<not> truthy None"
      "getProp exampleEngine (Obj [(''message'', Str ''Server error'')]) ''message'' =
         Inr (Some (Str ''Server error''))"
      "truthy (Some (Str ''Server error''))"
    by simp_all
  from status_not_inspected [where eng = exampleEngine and code = 500 and code' = 500
      and st = examplePage and result = "Obj [(''floor'', Num ''3'')]" and floor = "Some (Num ''3'')"] g
  have a: "step exampleEngine
     (TranscribeSettled (Responded 500 (JsonResolved (Obj [(''floor'', Num ''3'')])))) examplePage =
     (case selectFloor exampleEngine (Some (Num ''3''))
             (examplePage\<lparr>inflight := inflight examplePage - 1\<rparr>) of
        Inr st' \<Rightarrow> st'
      | Inl m \<Rightarrow> speak (''Error processing voice input: '' @ m)
                  (examplePage\<lparr>inflight := inflight examplePage - 1\<rparr>))"
    by blast
  from status_not_inspected [where eng = exampleEngine and code = 404 and code' = 404
      and st = examplePage and result = "Obj [(''message'', Str ''Server error'')]" and floor = None
      and msg = "Some (Str ''Server error'')"] g
  have b: "step exampleEngine
     (TranscribeSettled (Responded 404 (JsonResolved (Obj [(''message'', Str ''Server error'')]))))
     examplePage =
     (case speakValue exampleEngine (Some (Str ''Server error''))
             (examplePage\<lparr>inflight := inflight examplePage - 1\<rparr>) of
        Inr st' \<Rightarrow> st'
      | Inl m \<Rightarrow> speak (''Error processing voice input: '' @ m)
                  (examplePage\<lparr>inflight := inflight examplePage - 1\<rparr>))"
    by blast
  have "selectedFloorText (step exampleEngine
     (TranscribeSettled (Responded 500 (JsonResolved (Obj [(''floor'', Num ''3'')])))) examplePage) =
     ''Selected: Floor 3''"
    by (simp only: a) (simp add: selectFloor_def speak_def)
  moreover have "spoken (step exampleEngine
     (TranscribeSettled (Responded 404 (JsonResolved (Obj [(''message'', Str ''Server error'')]))))
     examplePage) = spoken examplePage @ [''Server error'']"
    by (simp only: b) (simp add: speakValue_def speak_def)
  ultimately show ?thesis using g by simp
qed

text \<open>
  Claim C10 as stated fails at the body \<open>null\<close>: it is parsable JSON, the transport has
  not failed, and the \<open>catch\<close> clause runs.  It fails as well at the body
  \<open>{"floor": {"toString": 1}}\<close>: the floor is truthy, and the template literal of
  \<open>selectFloor\<close> throws on it before anything is selected.
\<close>

theorem null_body_counterexample:
  "sendAudioToAPI_try exampleEngine (Responded 200 (JsonResolved Null)) examplePage =
     Inl ''result is null'' \<and>
   spoken (step exampleEngine (TranscribeSettled (Responded 200 (JsonResolved Null))) examplePage) =
     spoken examplePage @ [''Error processing voice input: result is null''] \<and>
   truthy (Some (Obj [(''toString'', Num ''1'')])) \<and>
   sendAudioToAPI_try exampleEngine
     (Responded 200 (JsonResolved (Obj [(''floor'', Obj [(''toString'', Num ''1'')])]))) examplePage =
     Inl ''cannot convert floor to a primitive'' \<and>
   spoken (step exampleEngine (TranscribeSettled
     (Responded 200 (JsonResolved (Obj [(''floor'', Obj [(''toString'', Num ''1'')])])))) examplePage) =
     spoken examplePage @ [''Error processing voice input: cannot convert floor to a primitive'']"
  by (simp add: sendAudioToAPI_resume_def selectFloor_def speak_def exampleEngine_def)

end
